theory Spec2Isabelle
  imports Main
begin

section \<open>The real-time event server of the storefront (lib/socket.ts)\<close>

text \<open>
  The server keeps one presence registry (\<open>connectedUsers\<close>, a JavaScript \<open>Map\<close>) and
  registers one handler per event name on every connection. The embedding below follows
  the handlers of \<open>initSocketServer\<close> and the two exported emitters line by line:
  a handler takes the server state and the event's payload and returns the new state,
  the emissions it made (in order) and the lines it wrote to the console.
\<close>

subsection \<open>JavaScript values\<close>

text \<open>
  The payloads are untyped in the source. A field of a payload is a primitive here:
  absent (\<open>undefined\<close>), \<open>null\<close>, a boolean, a number or a string. A number is kept
  as the text \<open>String(n)\<close> gives for it: two numbers are the same key of a \<open>Map\<close>
  exactly when they have the same text (\<open>0\<close> and \<open>-0\<close> are one key and both print
  \<open>0\<close>, \<open>NaN\<close> is one key). A value handed to \<open>emit\<close> is a primitive, an object of
  such fields, or an array of objects. An event arrives with an object as its payload.
\<close>

datatype prim = Undefined | Null | Bool bool | Num string | Str string

type_synonym obj = "(string \<times> prim) list"

datatype jsval = Prim prim | Obj obj | Arr "obj list"

text \<open>Interpolation in a template literal, \<open>`${v}`\<close>.\<close>

fun to_string :: "prim \<Rightarrow> string" where
  "to_string Undefined = ''undefined''"
| "to_string Null = ''null''"
| "to_string (Bool b) = (if b then ''true'' else ''false'')"
| "to_string (Num s) = s"
| "to_string (Str s) = s"

text \<open>The condition of \<open>if (v)\<close> and of \<open>v || w\<close>.\<close>

fun truthy :: "prim \<Rightarrow> bool" where
  "truthy Undefined = False"
| "truthy Null = False"
| "truthy (Bool b) = b"
| "truthy (Num s) = (s \<noteq> ''0'' \<and> s \<noteq> ''NaN'')"
| "truthy (Str s) = (s \<noteq> [])"

definition js_or :: "prim \<Rightarrow> prim \<Rightarrow> prim" where
  "js_or a b = (if truthy a then a else b)"

text \<open>Reading a property of an object, as destructuring does: an absent field is \<open>undefined\<close>.\<close>

definition fld :: "obj \<Rightarrow> string \<Rightarrow> prim" where
  "fld p k = (case map_of p k of None \<Rightarrow> Undefined | Some v \<Rightarrow> v)"

text \<open>
  \<open>order.userId\<close> on an argument of type \<open>any\<close>: reading a property of \<open>undefined\<close> or
  \<open>null\<close> throws a TypeError; on any other value that is not an object the properties
  read here (\<open>userId\<close>, \<open>status\<close>, \<open>id\<close>, \<open>_id\<close>) are \<open>undefined\<close>.
\<close>

fun nullish :: "jsval \<Rightarrow> bool" where
  "nullish (Prim Undefined) = True"
| "nullish (Prim Null) = True"
| "nullish _ = False"

fun get_prop :: "jsval \<Rightarrow> string \<Rightarrow> prim" where
  "get_prop (Obj ob) k = fld ob k"
| "get_prop _ k = Undefined"

text \<open>The decimal digits of a natural number: \<open>`${Date.now()}`\<close>.\<close>

definition digit :: "nat \<Rightarrow> char" where
  "digit d = ''0123456789'' ! (d mod 10)"

fun show_nat :: "nat \<Rightarrow> string" where
  "show_nat n =
     (if n < 10 then [digit n]
      else show_nat (n div 10) @ [digit (n mod 10)])"

declare show_nat.simps [simp del]

text \<open>
  What a handler reads from its environment: \<open>Date.now()\<close>, the text of
  \<open>Math.random().toString(36)\<close>, and the results of the first and the second
  \<open>new Date().toISOString()\<close> of the handler.
\<close>

record env =
  date_now :: nat
  random_base36 :: string
  iso1 :: string
  iso2 :: string

subsection \<open>The presence registry: a Map in insertion order\<close>

record presence =
  socketId :: string
  role :: prim
  name :: prim
  online :: bool

type_synonym registry = "(prim \<times> presence) list"

text \<open>
  \<open>Map.prototype.set\<close>: an existing key keeps its place and takes the new value, a new
  key goes to the end. \<open>Map.prototype.delete\<close> removes the key. Iteration
  (\<open>entries()\<close>) is the list from left to right.
\<close>

fun map_set :: "prim \<Rightarrow> presence \<Rightarrow> registry \<Rightarrow> registry" where
  "map_set k v [] = [(k, v)]"
| "map_set k v ((k', v') # m) = (if k' = k then (k, v) # m else (k', v') # map_set k v m)"

fun map_delete :: "prim \<Rightarrow> registry \<Rightarrow> registry" where
  "map_delete k [] = []"
| "map_delete k ((k', v') # m) = (if k' = k then m else (k', v') # map_delete k m)"

fun map_get :: "prim \<Rightarrow> registry \<Rightarrow> presence option" where
  "map_get k [] = None"
| "map_get k ((k', v') # m) = (if k' = k then Some v' else map_get k m)"

subsection \<open>Connections, emissions, console\<close>

text \<open>
  The attributes the join handler writes on a connection's \<open>socket\<close> object, and the
  rooms this code makes it join.
\<close>

record socket_attrs =
  userId :: prim
  userRole :: prim
  userName :: prim
  rooms :: "prim set"

definition fresh_socket :: socket_attrs where
  "fresh_socket = \<lparr>userId = Undefined, userRole = Undefined, userName = Undefined, rooms = {}\<rparr>"

record server =
  connectedUsers :: registry
  sockets :: "string \<Rightarrow> socket_attrs"

definition init_server :: server where
  "init_server = \<lparr>connectedUsers = [], sockets = (\<lambda>_. fresh_socket)\<rparr>"

text \<open>
  Where an emission goes: \<open>io.emit\<close> (every connection), \<open>io.to(room).emit\<close>,
  \<open>socket.emit\<close> (the connection itself), \<open>socket.broadcast.to(room).emit\<close> (the room
  without the connection), and the acknowledgement callback of a request.
\<close>

datatype target =
  ToAll
| ToRoom prim
| ToSocket string
| ToRoomExcept prim string
| ToCallback string

datatype emission = Emit (tgt: target) (ev_name: string) (payload: jsval)

text \<open>One constructor for each console call of the source, with the values it prints.\<close>

datatype console =
  LogClientConnected string
| LogUserJoined prim prim
| LogNewMessage prim
| LogPayment prim
| LogOrderStatus prim prim
| LogClientDisconnected string
| ErrEmitOrderCreated
| ErrEmitOrderUpdated

type_synonym outcome = "server \<times> emission list \<times> console list"

definition user_room :: "prim \<Rightarrow> prim" where
  "user_room u = Str (''user-'' @ to_string u)"

definition vendor_room :: prim where
  "vendor_room = Str ''vendor''"

subsection \<open>The handlers\<close>

definition on_join_user :: "string \<Rightarrow> obj \<Rightarrow> server \<Rightarrow> outcome" where
  "on_join_user sid p st =
     (let uid = fld p ''userId''; r = fld p ''role''; n = fld p ''name'';
          sock = sockets st sid;
          sock' = sock\<lparr>userId := uid, userRole := r, userName := n,
                       rooms := insert r (insert (user_room uid) (rooms sock))\<rparr>
      in (st\<lparr>connectedUsers :=
                map_set uid \<lparr>socketId = sid, role = r, name = n, online = True\<rparr>
                  (connectedUsers st),
              sockets := (sockets st)(sid := sock')\<rparr>,
          [Emit ToAll ''user-online''
             (Obj [(''userId'', uid), (''role'', r), (''name'', n), (''online'', Bool True)])],
          [LogUserJoined n r]))"

definition message_id :: "env \<Rightarrow> string" where
  "message_id en =
     ''msg-'' @ show_nat (date_now en) @ ''-'' @ take 9 (drop 2 (random_base36 en))"

definition fullMessage :: "env \<Rightarrow> obj \<Rightarrow> obj" where
  "fullMessage en p =
     [(''id'', Str (message_id en)),
      (''chatId'', fld p ''chatId''),
      (''senderId'', fld p ''senderId''),
      (''message'', fld p ''message''),
      (''timestamp'', Str (iso1 en)),
      (''recipientId'', fld p ''recipientId'')]"

definition on_send_message :: "env \<Rightarrow> string \<Rightarrow> obj \<Rightarrow> server \<Rightarrow> outcome" where
  "on_send_message en sid p st =
     (st,
      [Emit (ToRoom (user_room (fld p ''recipientId''))) ''receive-message''
         (Obj (fullMessage en p)),
       Emit (ToSocket sid) ''message-sent'' (Obj (fullMessage en p))],
      [LogNewMessage (fld p ''chatId'')])"

definition on_typing :: "string \<Rightarrow> obj \<Rightarrow> server \<Rightarrow> outcome" where
  "on_typing sid p st =
     (st,
      [Emit (ToRoomExcept (fld p ''chatId'') sid) ''user-typing''
         (Obj [(''chatId'', fld p ''chatId''), (''name'', fld p ''name'')])],
      [])"

definition on_stop_typing :: "string \<Rightarrow> obj \<Rightarrow> server \<Rightarrow> outcome" where
  "on_stop_typing sid p st =
     (st,
      [Emit (ToRoomExcept (fld p ''chatId'') sid) ''user-stop-typing''
         (Obj [(''chatId'', fld p ''chatId'')])],
      [])"

definition on_mark_read :: "string \<Rightarrow> obj \<Rightarrow> server \<Rightarrow> outcome" where
  "on_mark_read sid p st =
     (st,
      [Emit (ToRoom (fld p ''chatId'')) ''message-read''
         (Obj [(''chatId'', fld p ''chatId''), (''messageId'', fld p ''messageId''),
               (''userId'', fld p ''userId'')])],
      [])"

definition on_order_paid :: "env \<Rightarrow> string \<Rightarrow> obj \<Rightarrow> server \<Rightarrow> outcome" where
  "on_order_paid en sid p st =
     (st,
      [Emit (ToRoom vendor_room) ''new-order-payment''
         (Obj [(''orderId'', fld p ''orderId''), (''userId'', fld p ''userId''),
               (''amount'', fld p ''amount''), (''paymentMethod'', fld p ''paymentMethod''),
               (''timestamp'', Str (iso1 en))]),
       Emit (ToRoom (user_room (fld p ''userId''))) ''payment-confirmed''
         (Obj [(''orderId'', fld p ''orderId'')])],
      [LogPayment (fld p ''orderId'')])"

definition on_order_status_updated :: "env \<Rightarrow> string \<Rightarrow> obj \<Rightarrow> server \<Rightarrow> outcome" where
  "on_order_status_updated en sid p st =
     (st,
      [Emit (ToRoom (user_room (fld p ''clientId''))) ''order-status-changed''
         (Obj [(''orderId'', fld p ''orderId''), (''status'', fld p ''status''),
               (''timestamp'', Str (iso1 en))]),
       Emit (ToRoom vendor_room) ''order-status-changed''
         (Obj [(''orderId'', fld p ''orderId''), (''status'', fld p ''status''),
               (''timestamp'', Str (iso2 en))])],
      [LogOrderStatus (fld p ''orderId'') (fld p ''status'')])"

text \<open>The request carries its callback; the reply goes to the requester alone.\<close>

definition on_get_online_users :: "string \<Rightarrow> server \<Rightarrow> outcome" where
  "on_get_online_users sid st =
     (st,
      [Emit (ToCallback sid) ''get-online-users''
         (Arr (map (\<lambda>(uid, user).
                      [(''id'', uid), (''name'', name user), (''role'', role user),
                       (''online'', Bool True)])
                   (connectedUsers st)))],
      [])"

text \<open>
  The loop of the disconnect handler, over the entries that remain to be visited:
  the first entry whose \<open>socketId\<close> is the connection's is deleted from the map and
  announced, and the loop stops (\<open>break\<close>).
\<close>

fun disconnect_loop :: "string \<Rightarrow> registry \<Rightarrow> registry \<Rightarrow> registry \<times> emission list" where
  "disconnect_loop sid [] m = (m, [])"
| "disconnect_loop sid ((uid, user) # rest) m =
     (if socketId user = sid
      then (map_delete uid m,
            [Emit ToAll ''user-offline''
               (Obj [(''userId'', uid), (''name'', name user), (''role'', role user),
                     (''online'', Bool False)])])
      else disconnect_loop sid rest m)"

definition on_disconnect :: "string \<Rightarrow> server \<Rightarrow> outcome" where
  "on_disconnect sid st =
     (case disconnect_loop sid (connectedUsers st) (connectedUsers st) of
        (m, out) \<Rightarrow> (st\<lparr>connectedUsers := m\<rparr>, out, [LogClientDisconnected sid]))"

definition on_connection :: "string \<Rightarrow> server \<Rightarrow> outcome" where
  "on_connection sid st =
     (st\<lparr>sockets := (sockets st)(sid := fresh_socket)\<rparr>, [], [LogClientConnected sid])"

subsection \<open>Events and runs\<close>

datatype event =
  Connection string
| JoinUser string obj
| SendMessage string obj
| Typing string obj
| StopTyping string obj
| MarkRead string obj
| OrderPaid string obj
| OrderStatusUpdated string obj
| GetOnlineUsers string
| Disconnect string

fun step :: "env \<Rightarrow> server \<Rightarrow> event \<Rightarrow> outcome" where
  "step en st (Connection sid) = on_connection sid st"
| "step en st (JoinUser sid p) = on_join_user sid p st"
| "step en st (SendMessage sid p) = on_send_message en sid p st"
| "step en st (Typing sid p) = on_typing sid p st"
| "step en st (StopTyping sid p) = on_stop_typing sid p st"
| "step en st (MarkRead sid p) = on_mark_read sid p st"
| "step en st (OrderPaid sid p) = on_order_paid en sid p st"
| "step en st (OrderStatusUpdated sid p) = on_order_status_updated en sid p st"
| "step en st (GetOnlineUsers sid) = on_get_online_users sid st"
| "step en st (Disconnect sid) = on_disconnect sid st"

definition state_of :: "outcome \<Rightarrow> server" where
  "state_of r = fst r"

definition emitted :: "outcome \<Rightarrow> emission list" where
  "emitted r = fst (snd r)"

definition logged :: "outcome \<Rightarrow> console list" where
  "logged r = snd (snd r)"

text \<open>The server processes events one at a time; each comes with what its handler reads.\<close>

fun run :: "server \<Rightarrow> (env \<times> event) list \<Rightarrow> server" where
  "run st [] = st"
| "run st ((en, ev) # evs) = run (state_of (step en st ev)) evs"

subsection \<open>The emitters called by the order API routes\<close>

text \<open>
  \<open>io\<close> is whether \<open>globalThis.__io\<close> holds the server. Both functions wrap their body in
  \<open>try\<close>/\<open>catch\<close>: an emission made before a TypeError stays made, and the \<open>catch\<close>
  writes one error line.
\<close>

definition emitOrderCreated :: "bool \<Rightarrow> jsval \<Rightarrow> emission list \<times> console list" where
  "emitOrderCreated io order =
     (if \<not> io then ([], [])
      else if nullish order
      then ([Emit (ToRoom vendor_room) ''order-created'' order], [ErrEmitOrderCreated])
      else ([Emit (ToRoom vendor_room) ''order-created'' order] @
            (if truthy (get_prop order ''userId'')
             then [Emit (ToRoom (user_room (get_prop order ''userId''))) ''order-created'' order]
             else []),
            []))"

definition emitOrderUpdated :: "bool \<Rightarrow> env \<Rightarrow> jsval \<Rightarrow> emission list \<times> console list" where
  "emitOrderUpdated io en order =
     (if \<not> io then ([], [])
      else if nullish order
      then ([Emit (ToRoom vendor_room) ''order-updated'' order], [ErrEmitOrderUpdated])
      else ([Emit (ToRoom vendor_room) ''order-updated'' order] @
            (if truthy (get_prop order ''userId'')
             then [Emit (ToRoom (user_room (get_prop order ''userId''))) ''order-updated'' order]
             else []) @
            (if truthy (get_prop order ''status'')
             then [Emit (ToRoom (user_room (get_prop order ''userId''))) ''order-status-changed''
                     (Obj [(''orderId'', js_or (get_prop order ''id'') (get_prop order ''_id'')),
                           (''status'', get_prop order ''status''),
                           (''timestamp'', Str (iso1 en))])]
             else []),
            []))"

subsection \<open>Predicates on states and events\<close>

text \<open>The presence entries of a connection, in the order of the registry.\<close>

definition entries_of :: "string \<Rightarrow> registry \<Rightarrow> registry" where
  "entries_of sid m = filter (\<lambda>(uid, user). socketId user = sid) m"

definition holds_entry :: "string \<Rightarrow> registry \<Rightarrow> bool" where
  "holds_entry sid m = (entries_of sid m \<noteq> [])"

text \<open>A connection that has not sent \<open>join-user\<close>: its socket is as created, no entry is its own.\<close>

definition anonymous :: "server \<Rightarrow> string \<Rightarrow> bool" where
  "anonymous st sid =
     (sockets st sid = fresh_socket \<and> \<not> holds_entry sid (connectedUsers st))"

text \<open>The events of the chat and order protocol, apart from joining and leaving.\<close>

fun handled_without_identity :: "event \<Rightarrow> bool" where
  "handled_without_identity (SendMessage sid p) = True"
| "handled_without_identity (Typing sid p) = True"
| "handled_without_identity (StopTyping sid p) = True"
| "handled_without_identity (MarkRead sid p) = True"
| "handled_without_identity (OrderPaid sid p) = True"
| "handled_without_identity (OrderStatusUpdated sid p) = True"
| "handled_without_identity _ = False"

text \<open>The two events whose handlers write the registry.\<close>

fun touches_registry :: "event \<Rightarrow> bool" where
  "touches_registry (JoinUser sid p) = True"
| "touches_registry (Disconnect sid) = True"
| "touches_registry _ = False"

text \<open>A non-empty string: what the client adapter requires of the three fields it announces.\<close>

fun nonempty :: "prim \<Rightarrow> bool" where
  "nonempty (Str s) = (s \<noteq> [])"
| "nonempty _ = False"

definition presence_ok :: "registry \<Rightarrow> bool" where
  "presence_ok m =
     list_all (\<lambda>(uid, user). nonempty uid \<and> nonempty (role user) \<and> nonempty (name user)) m"

fun well_formed_join :: "event \<Rightarrow> bool" where
  "well_formed_join (JoinUser sid p) =
     (nonempty (fld p ''userId'') \<and> nonempty (fld p ''role'') \<and> nonempty (fld p ''name''))"
| "well_formed_join _ = True"

text \<open>A \<open>join-user\<close> of connection \<open>sid\<close> under user id \<open>u\<close>.\<close>

fun join_as :: "string \<Rightarrow> prim \<Rightarrow> event \<Rightarrow> bool" where
  "join_as sid u (JoinUser sid' p) = (sid' = sid \<and> fld p ''userId'' = u)"
| "join_as sid u _ = False"

text \<open>A \<open>join-user\<close> of connection \<open>sid\<close>, under any user id.\<close>

fun sent_join :: "string \<Rightarrow> event \<Rightarrow> bool" where
  "sent_join sid (JoinUser sid' p) = (sid' = sid)"
| "sent_join sid _ = False"

text \<open>
  The events that touch the entry a connection \<open>sid\<close> holds for user \<open>u\<close>: a
  \<open>join-user\<close> carrying \<open>u\<close>, any \<open>join-user\<close> of \<open>sid\<close>, and the disconnect of \<open>sid\<close>.
\<close>

fun interferes :: "string \<Rightarrow> prim \<Rightarrow> event \<Rightarrow> bool" where
  "interferes sid u (JoinUser sid' p) = (sid' = sid \<or> fld p ''userId'' = u)"
| "interferes sid u (Disconnect sid') = (sid' = sid)"
| "interferes sid u _ = False"

subsection \<open>A sample session\<close>

definition env0 :: env where
  "env0 = \<lparr>date_now = 1712, random_base36 = ''0.k3x9q2m7pzw4'',
           iso1 = ''2024-05-01T10:00:00.000Z'', iso2 = ''2024-05-01T10:00:00.001Z''\<rparr>"

definition ann :: obj where
  "ann = [(''userId'', Str ''u1''), (''role'', Str ''client''), (''name'', Str ''Ann'')]"

definition bob :: obj where
  "bob = [(''userId'', Str ''u2''), (''role'', Str ''vendor''), (''name'', Str ''Bob'')]"

definition nameless :: obj where
  "nameless = [(''userId'', Str ''u3''), (''role'', Str ''client''), (''name'', Str [])]"

definition hello :: obj where
  "hello = [(''chatId'', Str ''c1''), (''message'', Str ''hi''), (''senderId'', Str ''u1''),
            (''recipientId'', Str ''u2''), (''id'', Str ''m-17''),
            (''timestamp'', Str ''2024-04-30T09:00:00.000Z'')]"

definition order1 :: jsval where
  "order1 = Obj [(''id'', Str ''o1''), (''userId'', Str ''u1''), (''status'', Str ''shipped'')]"

section \<open>Properties\<close>

subsection \<open>Handlers that leave the state alone\<close>

lemma step_state_unchanged:
  "handled_without_identity ev \<Longrightarrow> state_of (step en st ev) = st"
  by (cases ev)
     (simp_all add: state_of_def on_send_message_def on_typing_def on_stop_typing_def
        on_mark_read_def on_order_paid_def on_order_status_updated_def)

lemma step_output_state_free:
  "handled_without_identity ev \<Longrightarrow>
     emitted (step en st' ev) = emitted (step en st ev)
     \<and> logged (step en st' ev) = logged (step en st ev)"
  by (cases ev)
     (simp_all add: emitted_def logged_def on_send_message_def on_typing_def on_stop_typing_def
        on_mark_read_def on_order_paid_def on_order_status_updated_def)

subsection \<open>The registry as a Map\<close>

lemma run_append: "run st (xs @ ys) = run (run st xs) ys"
  by (induction xs arbitrary: st) auto

lemma registry_after_join:
  "connectedUsers (state_of (step en st (JoinUser sid p)))
     = map_set (fld p ''userId'')
         \<lparr>socketId = sid, role = fld p ''role'', name = fld p ''name'', online = True\<rparr>
         (connectedUsers st)"
  by (simp add: state_of_def on_join_user_def Let_def)

lemma registry_after_disconnect:
  "connectedUsers (state_of (step en st (Disconnect sid)))
     = fst (disconnect_loop sid (connectedUsers st) (connectedUsers st))"
  by (simp add: state_of_def on_disconnect_def split: prod.splits)


lemma keys_map_set:
  "map fst (map_set k v m) = (if k \<in> set (map fst m) then map fst m else map fst m @ [k])"
  by (induction k v m rule: map_set.induct) force+

lemma keys_map_delete: "map fst (map_delete k m) = remove1 k (map fst m)"
  by (induction m) auto

lemma map_get_map_set: "map_get k' (map_set k v m) = (if k' = k then Some v else map_get k' m)"
  by (induction m) auto

lemma map_get_None: "map_get k m = None \<longleftrightarrow> k \<notin> set (map fst m)"
  by (induction k m rule: map_get.induct) force+

lemma count_key:
  "distinct (map fst m) \<Longrightarrow> k \<in> set (map fst m) \<Longrightarrow>
     length (filter (\<lambda>(k', v). k' = k) m) = 1"
proof (induction m)
  case Nil
  then show ?case by simp
next
  case (Cons a m)
  obtain k0 v0 where a: "a = (k0, v0)" by (cases a)
  show ?case
  proof (cases "k0 = k")
    case True
    with Cons.prems a have "k \<notin> set (map fst m)" by simp
    then have "filter (\<lambda>(k', v). k' = k) m = []"
      by (auto simp: filter_empty_conv image_iff)
    with True a show ?thesis by simp
  next
    case False
    with Cons a show ?thesis by simp
  qed
qed

lemma disconnect_loop_cases:
  "(entries_of sid xs = [] \<and> disconnect_loop sid xs m = (m, []))
   \<or> (\<exists>k e rest. entries_of sid xs = (k, e) # rest \<and>
         disconnect_loop sid xs m =
           (map_delete k m,
            [Emit ToAll ''user-offline''
               (Obj [(''userId'', k), (''name'', name e), (''role'', role e),
                     (''online'', Bool False)])]))"
  by (induction xs) (auto simp: entries_of_def)

lemma distinct_step:
  assumes "distinct (map fst (connectedUsers st))"
  shows "distinct (map fst (connectedUsers (state_of (step en st ev))))"
proof (cases ev)
  case (JoinUser sid p)
  from assms show ?thesis
    unfolding JoinUser registry_after_join
    by (simp add: keys_map_set)
next
  case (Disconnect sid)
  from disconnect_loop_cases [of sid "connectedUsers st" "connectedUsers st"] assms
  show ?thesis
    unfolding Disconnect registry_after_disconnect
    by (auto simp: keys_map_delete)
qed (simp_all add: state_of_def on_connection_def on_send_message_def on_typing_def
       on_stop_typing_def on_mark_read_def on_order_paid_def on_order_status_updated_def
       on_get_online_users_def assms)

lemma distinct_run:
  "distinct (map fst (connectedUsers st)) \<Longrightarrow> distinct (map fst (connectedUsers (run st evs)))"
  by (induction evs arbitrary: st) (auto simp: distinct_step)

lemma distinct_reachable: "distinct (map fst (connectedUsers (run init_server evs)))"
  by (rule distinct_run) (simp add: init_server_def)

subsection \<open>Sending a message\<close>

text \<open>
  Claim C1. A \<open>send-message\<close> with recipient \<open>B\<close>, handled on connection \<open>sid\<close>, makes
  exactly two emissions: one \<open>receive-message\<close> to the room \<open>user-B\<close> and one
  \<open>message-sent\<close> to the connection \<open>sid\<close> itself. Both carry the same record, whose
  fields are \<open>id\<close>, \<open>chatId\<close>, \<open>senderId\<close>, \<open>message\<close>, \<open>timestamp\<close>, \<open>recipientId\<close>, the
  four payload fields copied. No emission has another target, so none goes to the
  personal channel of a third user, and the state is left as it was. The handler never
  looks at the registry: this holds in every state, so also while \<open>B\<close> is connected.
\<close>

theorem send_message_delivery:
  "[e \<leftarrow> emitted (step en st (SendMessage sid p)). ev_name e = ''receive-message'']
     = [Emit (ToRoom (user_room (fld p ''recipientId''))) ''receive-message''
          (Obj (fullMessage en p))]
   \<and> [e \<leftarrow> emitted (step en st (SendMessage sid p)). ev_name e = ''message-sent'']
     = [Emit (ToSocket sid) ''message-sent'' (Obj (fullMessage en p))]
   \<and> [e \<leftarrow> emitted (step en st (SendMessage sid p)).
        tgt e \<noteq> ToRoom (user_room (fld p ''recipientId'')) \<and> tgt e \<noteq> ToSocket sid] = []
   \<and> length (emitted (step en st (SendMessage sid p))) = 2
   \<and> map fst (fullMessage en p)
     = [''id'', ''chatId'', ''senderId'', ''message'', ''timestamp'', ''recipientId'']
   \<and> fld (fullMessage en p) ''chatId'' = fld p ''chatId''
   \<and> fld (fullMessage en p) ''senderId'' = fld p ''senderId''
   \<and> fld (fullMessage en p) ''message'' = fld p ''message''
   \<and> fld (fullMessage en p) ''recipientId'' = fld p ''recipientId''
   \<and> state_of (step en st (SendMessage sid p)) = st"
  by (simp add: on_send_message_def emitted_def state_of_def fullMessage_def fld_def)

theorem send_message_delivery_witness:
  "[e \<leftarrow> emitted (step env0 (run init_server [(env0, JoinUser ''s2'' bob)])
                    (SendMessage ''s1'' hello)). ev_name e = ''receive-message'']
     = [Emit (ToRoom (Str ''user-u2'')) ''receive-message''
          (Obj [(''id'', Str ''msg-1712-k3x9q2m7p''), (''chatId'', Str ''c1''),
                (''senderId'', Str ''u1''), (''message'', Str ''hi''),
                (''timestamp'', Str ''2024-05-01T10:00:00.000Z''),
                (''recipientId'', Str ''u2'')])]"
  using send_message_delivery
          [of env0 "run init_server [(env0, JoinUser ''s2'' bob)]" "''s1''" hello]
  by (simp add: fullMessage_def message_id_def show_nat.simps digit_def env0_def hello_def
        fld_def user_room_def)

text \<open>
  Claim C10. A connection that has not joined is served like one that has: its
  \<open>send-message\<close> yields the \<open>receive-message\<close> to the recipient's personal channel and the
  \<open>message-sent\<close> to itself, the same emissions and console lines as after a
  \<open>join-user\<close> of that connection, and the state does not change. The same holds for
  every other event of the chat and order protocol (\<open>typing\<close>, \<open>stop-typing\<close>,
  \<open>mark-read\<close>, \<open>order-paid\<close>, \<open>order-status-updated\<close>). No handler has a rejecting
  branch.
\<close>

theorem identity_not_required:
  assumes "anonymous st sid"
  shows "emitted (step en st (SendMessage sid p))
           = [Emit (ToRoom (user_room (fld p ''recipientId''))) ''receive-message''
                (Obj (fullMessage en p)),
              Emit (ToSocket sid) ''message-sent'' (Obj (fullMessage en p))]
         \<and> emitted (step en (state_of (step en' st (JoinUser sid q))) (SendMessage sid p))
           = emitted (step en st (SendMessage sid p))
         \<and> logged (step en (state_of (step en' st (JoinUser sid q))) (SendMessage sid p))
           = logged (step en st (SendMessage sid p))
         \<and> state_of (step en st (SendMessage sid p)) = st
         \<and> (\<forall>ev. handled_without_identity ev \<longrightarrow>
               emitted (step en (state_of (step en' st (JoinUser sid q))) ev)
                 = emitted (step en st ev)
             \<and> logged (step en (state_of (step en' st (JoinUser sid q))) ev)
                 = logged (step en st ev)
             \<and> state_of (step en st ev) = st)"
proof -
  have one: "emitted (step en st (SendMessage sid p))
           = [Emit (ToRoom (user_room (fld p ''recipientId''))) ''receive-message''
                (Obj (fullMessage en p)),
              Emit (ToSocket sid) ''message-sent'' (Obj (fullMessage en p))]"
    by (simp add: emitted_def on_send_message_def)
  have msg: "handled_without_identity (SendMessage sid p)"
    by simp
  from one msg show ?thesis
    using step_state_unchanged step_output_state_free by blast
qed

theorem identity_not_required_witness:
  "anonymous init_server ''s1''
   \<and> emitted (step env0 init_server (SendMessage ''s1'' hello))
       = [Emit (ToRoom (Str ''user-u2'')) ''receive-message'' (Obj (fullMessage env0 hello)),
          Emit (ToSocket ''s1'') ''message-sent'' (Obj (fullMessage env0 hello))]
   \<and> emitted (step env0 (state_of (step env0 init_server (JoinUser ''s1'' ann)))
                (SendMessage ''s1'' hello))
       = emitted (step env0 init_server (SendMessage ''s1'' hello))"
proof -
  have a: "anonymous init_server ''s1''"
    by (simp add: anonymous_def init_server_def holds_entry_def entries_of_def)
  have r: "user_room (fld hello ''recipientId'') = Str ''user-u2''"
    by (simp add: user_room_def fld_def hello_def)
  from identity_not_required [OF a, of env0 hello env0 ann] a r show ?thesis
    by simp
qed

subsection \<open>Presence\<close>

text \<open>
  Claim C6. After two \<open>join-user\<close> events that carry the same user id, from the same or
  from two connections and with any events before and between them, the registry holds
  exactly one entry for that user id, and the entry names the connection of the later
  join (with the role and name of the later join).
\<close>

theorem last_join_wins:
  assumes "fld p1 ''userId'' = u" and "fld p2 ''userId'' = u"
  shows "length (filter (\<lambda>(k, user). k = u)
                  (connectedUsers
                     (run init_server
                        (evs0 @ [(en1, JoinUser s1 p1)] @ evs1 @ [(en2, JoinUser s2 p2)])))) = 1
         \<and> map_get u
             (connectedUsers
                (run init_server
                   (evs0 @ [(en1, JoinUser s1 p1)] @ evs1 @ [(en2, JoinUser s2 p2)])))
           = Some \<lparr>socketId = s2, role = fld p2 ''role'', name = fld p2 ''name'',
                    online = True\<rparr>"
proof -
  let ?evs = "evs0 @ [(en1, JoinUser s1 p1)] @ evs1 @ [(en2, JoinUser s2 p2)]"
  let ?before = "run init_server (evs0 @ [(en1, JoinUser s1 p1)] @ evs1)"
  let ?e = "\<lparr>socketId = s2, role = fld p2 ''role'', name = fld p2 ''name'', online = True\<rparr>"
  have split: "run init_server ?evs = state_of (step en2 ?before (JoinUser s2 p2))"
    using run_append [of init_server "evs0 @ [(en1, JoinUser s1 p1)] @ evs1"
                         "[(en2, JoinUser s2 p2)]"]
    by simp
  have reg: "connectedUsers (run init_server ?evs) = map_set u ?e (connectedUsers ?before)"
    unfolding split registry_after_join using assms(2) by simp
  have got: "map_get u (connectedUsers (run init_server ?evs)) = Some ?e"
    unfolding reg by (simp add: map_get_map_set)
  have "u \<in> set (map fst (connectedUsers (run init_server ?evs)))"
    using got map_get_None [of u "connectedUsers (run init_server ?evs)"] by simp
  then have "length (filter (\<lambda>(k, user). k = u) (connectedUsers (run init_server ?evs))) = 1"
    by (rule count_key [OF distinct_reachable])
  with got show ?thesis by simp
qed

theorem last_join_wins_witness:
  "fld ann ''userId'' = Str ''u1''
   \<and> length (filter (\<lambda>(k, user). k = Str ''u1'')
               (connectedUsers
                  (run init_server
                     ([] @ [(env0, JoinUser ''s1'' ann)] @ [] @ [(env0, JoinUser ''s2'' ann)]))))
       = 1
   \<and> map_get (Str ''u1'')
         (connectedUsers
            (run init_server
               ([] @ [(env0, JoinUser ''s1'' ann)] @ [] @ [(env0, JoinUser ''s2'' ann)])))
       = Some \<lparr>socketId = ''s2'', role = Str ''client'', name = Str ''Ann'', online = True\<rparr>"
proof -
  have h: "fld ann ''userId'' = Str ''u1''"
    by (simp add: fld_def ann_def)
  have r: "fld ann ''role'' = Str ''client''" "fld ann ''name'' = Str ''Ann''"
    by (simp_all add: fld_def ann_def)
  from last_join_wins [OF h h, where ?evs0.0 = "[]" and ?evs1.0 = "[]" and ?en1.0 = env0
      and ?en2.0 = env0 and ?s1.0 = "''s1''" and ?s2.0 = "''s2''"] h r
  show ?thesis
    by simp
qed

subsection \<open>The id and timestamp of a message\<close>

text \<open>
  Claim C4. The handler reads four fields of the payload (\<open>chatId\<close>, \<open>message\<close>,
  \<open>recipientId\<close>, \<open>senderId\<close>) and builds \<open>id\<close> and \<open>timestamp\<close> itself, whatever else
  the payload carries. The chat page sends the stored message's \<open>id\<close> and \<open>timestamp\<close>
  along; the record that goes out has neither: here the payload carries id \<open>m-17\<close> and
  a timestamp of 30 April, and both emissions carry the id \<open>msg-1712-k3x9q2m7p\<close> and the
  server's clock reading.
\<close>

theorem supplied_id_is_replaced:
  "fld hello ''id'' = Str ''m-17''
   \<and> fld hello ''timestamp'' = Str ''2024-04-30T09:00:00.000Z''
   \<and> map payload (emitted (step env0 init_server (SendMessage ''s1'' hello)))
     = [Obj [(''id'', Str ''msg-1712-k3x9q2m7p''), (''chatId'', Str ''c1''),
             (''senderId'', Str ''u1''), (''message'', Str ''hi''),
             (''timestamp'', Str ''2024-05-01T10:00:00.000Z''),
             (''recipientId'', Str ''u2'')],
        Obj [(''id'', Str ''msg-1712-k3x9q2m7p''), (''chatId'', Str ''c1''),
             (''senderId'', Str ''u1''), (''message'', Str ''hi''),
             (''timestamp'', Str ''2024-05-01T10:00:00.000Z''),
             (''recipientId'', Str ''u2'')]]"
  by (simp add: emitted_def on_send_message_def fullMessage_def message_id_def
        show_nat.simps digit_def env0_def hello_def fld_def)

subsection \<open>More on the registry\<close>

lemmas sample_defs = state_of_def emitted_def on_join_user_def on_disconnect_def
  on_send_message_def Let_def init_server_def fld_def ann_def bob_def hello_def

lemma emitted_disconnect:
  "emitted (step en st (Disconnect sid))
     = snd (disconnect_loop sid (connectedUsers st) (connectedUsers st))"
  by (simp add: emitted_def on_disconnect_def split: prod.splits)

lemma emitted_join:
  "emitted (step en st (JoinUser sid p))
     = [Emit ToAll ''user-online''
          (Obj [(''userId'', fld p ''userId''), (''role'', fld p ''role''),
                (''name'', fld p ''name''), (''online'', Bool True)])]"
  by (simp add: emitted_def on_join_user_def Let_def)

lemma registry_unchanged:
  "\<not> touches_registry ev \<Longrightarrow> connectedUsers (state_of (step en st ev)) = connectedUsers st"
  by (cases ev)
     (simp_all add: state_of_def on_connection_def on_send_message_def on_typing_def
        on_stop_typing_def on_mark_read_def on_order_paid_def on_order_status_updated_def
        on_get_online_users_def)

lemma map_set_fresh: "k \<notin> set (map fst m) \<Longrightarrow> map_set k v m = m @ [(k, v)]"
  by (induction k v m rule: map_set.induct) auto

lemma map_set_last: "k \<notin> set (map fst m) \<Longrightarrow> map_set k v (m @ [(k, v0)]) = m @ [(k, v)]"
  by (induction m) auto

lemma map_delete_last: "k \<notin> set (map fst m) \<Longrightarrow> map_delete k (m @ [(k, v)]) = m"
  by (induction m) auto

lemma map_get_distinct:
  "distinct (map fst m) \<Longrightarrow> (k, v) \<in> set m \<Longrightarrow> map_get k m = Some v"
  by (induction k m rule: map_get.induct) force+

lemma map_get_map_delete:
  "distinct (map fst m) \<Longrightarrow> map_get k (map_delete k m) = None"
  by (simp add: map_get_None keys_map_delete)

lemma length_map_delete:
  "k \<in> set (map fst m) \<Longrightarrow> Suc (length (map_delete k m)) = length m"
  by (induction k m rule: map_delete.induct) force+

lemma entries_of_in: "entries_of sid m = (k, v) # rest \<Longrightarrow> (k, v) \<in> set m \<and> socketId v = sid"
proof -
  assume "entries_of sid m = (k, v) # rest"
  then have "(k, v) \<in> set (entries_of sid m)" by simp
  then show ?thesis by (simp add: entries_of_def)
qed

lemma entries_of_map_delete_first:
  "distinct (map fst m) \<Longrightarrow> entries_of sid m = (u, user) # rest \<Longrightarrow>
     entries_of sid (map_delete u m) = rest"
proof (induction m)
  case Nil
  then show ?case by (simp add: entries_of_def)
next
  case (Cons a m)
  obtain k' v' where a: "a = (k', v')" by (cases a)
  show ?case
  proof (cases "socketId v' = sid")
    case True
    with Cons.prems a show ?thesis by (simp add: entries_of_def)
  next
    case False
    with Cons.prems a have rest: "entries_of sid m = (u, user) # rest"
      by (simp add: entries_of_def)
    then have "(u, user) \<in> set m" by (simp add: entries_of_in)
    then have "u \<in> fst ` set m" by force
    with Cons.prems a have "k' \<noteq> u" by auto
    with Cons rest a False show ?thesis by (simp add: entries_of_def)
  qed
qed

lemma entries_of_map_set_own:
  "entries_of sid m = [] \<Longrightarrow> socketId v = sid \<Longrightarrow> entries_of sid (map_set k v m) = [(k, v)]"
  by (induction k v m rule: map_set.induct) (auto simp: entries_of_def split: if_splits)

lemma entries_of_map_set_other:
  "socketId v \<noteq> sid \<Longrightarrow> (\<And>e. (k, e) \<in> set m \<Longrightarrow> socketId e \<noteq> sid) \<Longrightarrow>
     entries_of sid (map_set k v m) = entries_of sid m"
  by (induction k v m rule: map_set.induct) (auto simp: entries_of_def)

lemma entries_of_map_delete_other:
  "(\<And>e. (k, e) \<in> set m \<Longrightarrow> socketId e \<noteq> sid) \<Longrightarrow>
     entries_of sid (map_delete k m) = entries_of sid m"
  by (induction k m rule: map_delete.induct) (auto simp: entries_of_def)


lemma joins_keep_last:
  assumes "u \<notin> set (map fst m)"
    and "list_all (join_as sid u) (map snd evs)"
    and "connectedUsers st = m @ [(u, e)]"
    and "socketId e = sid"
  shows "\<exists>e'. connectedUsers (run st evs) = m @ [(u, e')] \<and> socketId e' = sid"
  using assms(2,3,4)
proof (induction evs arbitrary: st e)
  case Nil
  then show ?case by simp
next
  case (Cons a evs)
  obtain en ev where a: "a = (en, ev)" by (cases a)
  from Cons.prems(1) a obtain p where ev: "ev = JoinUser sid p" and u: "fld p ''userId'' = u"
    by (cases ev) auto
  let ?e = "\<lparr>socketId = sid, role = fld p ''role'', name = fld p ''name'', online = True\<rparr>"
  have reg: "connectedUsers (state_of (step en st ev)) = m @ [(u, ?e)]"
    unfolding ev registry_after_join using Cons.prems(2) u assms(1)
    by (simp add: map_set_last)
  from Cons.prems(1) a have rest: "list_all (join_as sid u) (map snd evs)" by simp
  have "\<exists>e'. connectedUsers (run (state_of (step en st ev)) evs) = m @ [(u, e')]
              \<and> socketId e' = sid"
    by (rule Cons.IH [OF rest reg]) simp
  with a show ?case by simp
qed

lemma own_entry_kept_step:
  assumes d: "distinct (map fst (connectedUsers st))"
    and own: "entries_of sid (connectedUsers st) = [(u, e0)]"
    and quiet: "\<not> interferes sid u ev"
  shows "entries_of sid (connectedUsers (state_of (step en st ev))) = [(u, e0)]"
proof -
  let ?R = "connectedUsers st"
  have only: "k = u" if "(k, e) \<in> set ?R" and "socketId e = sid" for k e
  proof -
    from that have "(k, e) \<in> set (entries_of sid ?R)" by (simp add: entries_of_def)
    with own show ?thesis by simp
  qed
  show ?thesis
  proof (cases ev)
    case (JoinUser sid' p)
    with quiet have ne: "sid' \<noteq> sid" and ku: "fld p ''userId'' \<noteq> u" by auto
    have "entries_of sid (map_set (fld p ''userId'')
             \<lparr>socketId = sid', role = fld p ''role'', name = fld p ''name'', online = True\<rparr> ?R)
          = entries_of sid ?R"
      using ne ku only by (intro entries_of_map_set_other) auto
    with own show ?thesis
      unfolding JoinUser registry_after_join by simp
  next
    case (Disconnect sid')
    with quiet have ne: "sid' \<noteq> sid" by simp
    from disconnect_loop_cases [of sid' ?R ?R]
    show ?thesis
    proof
      assume "entries_of sid' ?R = [] \<and> disconnect_loop sid' ?R ?R = (?R, [])"
      with own show ?thesis
        unfolding Disconnect registry_after_disconnect by simp
    next
      assume "\<exists>k e rest. entries_of sid' ?R = (k, e) # rest \<and>
         disconnect_loop sid' ?R ?R =
           (map_delete k ?R,
            [Emit ToAll ''user-offline''
               (Obj [(''userId'', k), (''name'', name e), (''role'', role e),
                     (''online'', Bool False)])])"
      then obtain k e rest where ent: "entries_of sid' ?R = (k, e) # rest"
        and loop: "fst (disconnect_loop sid' ?R ?R) = map_delete k ?R"
        by auto
      from ent have mem: "(k, e) \<in> set ?R" and se: "socketId e = sid'"
        by (simp_all add: entries_of_in)
      have "socketId e' \<noteq> sid" if "(k, e') \<in> set ?R" for e'
      proof -
        from d mem that have "e' = e" by (rule eq_key_imp_eq_value [symmetric])
        with se ne show ?thesis by simp
      qed
      then have "entries_of sid (map_delete k ?R) = entries_of sid ?R"
        by (rule entries_of_map_delete_other)
      with own loop show ?thesis
        unfolding Disconnect registry_after_disconnect by simp
    qed
  qed (simp_all add: registry_unchanged own del: step.simps)
qed

lemma own_entry_kept_run:
  assumes "distinct (map fst (connectedUsers st))"
    and "entries_of sid (connectedUsers st) = [(u, e0)]"
    and "list_all (\<lambda>ev. \<not> interferes sid u ev) (map snd evs)"
  shows "entries_of sid (connectedUsers (run st evs)) = [(u, e0)]"
  using assms
proof (induction evs arbitrary: st)
  case Nil
  then show ?case by simp
next
  case (Cons a evs)
  obtain en ev where a: "a = (en, ev)" by (cases a)
  from Cons.prems a have q: "\<not> interferes sid u ev"
    and rest: "list_all (\<lambda>ev. \<not> interferes sid u ev) (map snd evs)"
    by simp_all
  have d: "distinct (map fst (connectedUsers (state_of (step en st ev))))"
    using Cons.prems(1) by (rule distinct_step)
  have own: "entries_of sid (connectedUsers (state_of (step en st ev))) = [(u, e0)]"
    using Cons.prems(1,2) q by (rule own_entry_kept_step)
  from Cons.IH [OF d own rest] a show ?case
    by simp
qed

subsection \<open>The fields of a presence entry\<close>

lemma presence_ok_map_set:
  "presence_ok m \<Longrightarrow> nonempty k \<Longrightarrow> nonempty (role v) \<Longrightarrow> nonempty (name v) \<Longrightarrow>
     presence_ok (map_set k v m)"
  unfolding presence_ok_def
  by (induction k v m rule: map_set.induct) auto

lemma presence_ok_map_delete: "presence_ok m \<Longrightarrow> presence_ok (map_delete k m)"
  unfolding presence_ok_def
  by (induction k m rule: map_delete.induct) auto

lemma presence_ok_step:
  assumes "presence_ok (connectedUsers st)" and "well_formed_join ev"
  shows "presence_ok (connectedUsers (state_of (step en st ev)))"
proof (cases ev)
  case (JoinUser sid p)
  from assms show ?thesis
    unfolding JoinUser registry_after_join
    by (simp add: presence_ok_map_set)
next
  case (Disconnect sid)
  from disconnect_loop_cases [of sid "connectedUsers st" "connectedUsers st"] assms(1)
  show ?thesis
    unfolding Disconnect registry_after_disconnect
    by (auto simp: presence_ok_map_delete)
qed (simp_all add: state_of_def on_connection_def on_send_message_def on_typing_def
       on_stop_typing_def on_mark_read_def on_order_paid_def on_order_status_updated_def
       on_get_online_users_def assms)

text \<open>
  Claim C2, as amended. The join handler stores the payload's \<open>userId\<close>, \<open>role\<close> and
  \<open>name\<close> as they come, without a check. So the entries of the registry carry a
  non-empty user id, role and name in every state the server reaches through events
  whose \<open>join-user\<close> payloads carry three non-empty strings (what the client adapter
  sends: it connects only when all three are set).
\<close>

theorem presence_fields_follow_joins:
  assumes "list_all well_formed_join (map snd evs)"
  shows "presence_ok (connectedUsers (run init_server evs))"
proof -
  have "presence_ok (connectedUsers (run st evs))"
    if "presence_ok (connectedUsers st)" for st
    using that assms
  proof (induction evs arbitrary: st)
    case Nil
    then show ?case by simp
  next
    case (Cons a evs)
    obtain en ev where a: "a = (en, ev)" by (cases a)
    from Cons.prems a have "presence_ok (connectedUsers (state_of (step en st ev)))"
      by (simp add: presence_ok_step)
    with Cons a show ?case by simp
  qed
  then show ?thesis
    by (simp add: init_server_def presence_ok_def)
qed

theorem presence_fields_follow_joins_witness:
  "list_all well_formed_join (map snd [(env0, JoinUser ''s1'' ann), (env0, Disconnect ''s9'')])
   \<and> presence_ok
       (connectedUsers (run init_server [(env0, JoinUser ''s1'' ann), (env0, Disconnect ''s9'')]))
   \<and> connectedUsers (run init_server [(env0, JoinUser ''s1'' ann), (env0, Disconnect ''s9'')])
       = [(Str ''u1'', \<lparr>socketId = ''s1'', role = Str ''client'', name = Str ''Ann'',
                         online = True\<rparr>)]"
proof -
  have h: "list_all well_formed_join
             (map snd [(env0, JoinUser ''s1'' ann), (env0, Disconnect ''s9'')])"
    by (simp add: fld_def ann_def)
  have r: "connectedUsers (run init_server [(env0, JoinUser ''s1'' ann), (env0, Disconnect ''s9'')])
       = [(Str ''u1'', \<lparr>socketId = ''s1'', role = Str ''client'', name = Str ''Ann'',
                         online = True\<rparr>)]"
    by (simp add: sample_defs)
  from presence_fields_follow_joins [OF h] h r show ?thesis
    by simp
qed

text \<open>
  Without that condition the invariant fails: a \<open>join-user\<close> whose name is the empty
  string is recorded with the empty name.
\<close>

theorem empty_name_is_recorded:
  "connectedUsers (run init_server [(env0, JoinUser ''s3'' nameless)])
     = [(Str ''u3'', \<lparr>socketId = ''s3'', role = Str ''client'', name = Str [], online = True\<rparr>)]
   \<and> \<not> presence_ok (connectedUsers (run init_server [(env0, JoinUser ''s3'' nameless)]))"
  by (simp add: sample_defs nameless_def presence_ok_def)

subsection \<open>Join followed by disconnect\<close>

text \<open>
  Claim C3, as amended. Take a connection that holds no presence entry and a user id
  that has none. After its \<open>join-user\<close> under that user id, any number of further
  \<open>join-user\<close> events of the same connection under the same user id, and its
  disconnect, the registry is the one before the join, so its size is the size before
  the join.
\<close>

theorem join_then_disconnect_restores:
  assumes "\<not> holds_entry sid (connectedUsers st)"
    and "map_get u (connectedUsers st) = None"
    and "fld p ''userId'' = u"
    and "list_all (join_as sid u) (map snd rejoins)"
  shows "connectedUsers (run st ((en, JoinUser sid p) # rejoins @ [(en', Disconnect sid)]))
           = connectedUsers st
         \<and> length (connectedUsers
                     (run st ((en, JoinUser sid p) # rejoins @ [(en', Disconnect sid)])))
           = length (connectedUsers st)"
proof -
  let ?R = "connectedUsers st"
  let ?e = "\<lparr>socketId = sid, role = fld p ''role'', name = fld p ''name'', online = True\<rparr>"
  let ?st1 = "state_of (step en st (JoinUser sid p))"
  from assms(2) have fresh: "u \<notin> set (map fst ?R)"
    by (simp add: map_get_None)
  have reg1: "connectedUsers ?st1 = ?R @ [(u, ?e)]"
    unfolding registry_after_join using assms(3) fresh by (simp add: map_set_fresh)
  from joins_keep_last [OF fresh assms(4) reg1]
  obtain e' where reg2: "connectedUsers (run ?st1 rejoins) = ?R @ [(u, e')]"
    and sock: "socketId e' = sid"
    by auto
  from assms(1) have none: "entries_of sid ?R = []"
    by (simp add: holds_entry_def)
  have ent: "entries_of sid (?R @ [(u, e')]) = [(u, e')]"
    using none sock by (simp add: entries_of_def)
  have loop: "fst (disconnect_loop sid (?R @ [(u, e')]) (?R @ [(u, e')]))
                = map_delete u (?R @ [(u, e')])"
    using disconnect_loop_cases [of sid "?R @ [(u, e')]" "?R @ [(u, e')]"] ent by auto
  have "run st ((en, JoinUser sid p) # rejoins @ [(en', Disconnect sid)])
          = state_of (step en' (run ?st1 rejoins) (Disconnect sid))"
    by (simp add: run_append del: step.simps)
  then have "connectedUsers (run st ((en, JoinUser sid p) # rejoins @ [(en', Disconnect sid)]))
               = ?R"
    using reg2 loop fresh
    by (simp add: registry_after_disconnect map_delete_last del: step.simps)
  then show ?thesis by simp
qed

theorem join_then_disconnect_restores_witness:
  "\<not> holds_entry ''s1'' (connectedUsers (run init_server [(env0, JoinUser ''s2'' bob)]))
   \<and> map_get (Str ''u1'') (connectedUsers (run init_server [(env0, JoinUser ''s2'' bob)])) = None
   \<and> fld ann ''userId'' = Str ''u1''
   \<and> list_all (join_as ''s1'' (Str ''u1'')) (map snd [(env0, JoinUser ''s1'' ann)])
   \<and> connectedUsers
        (run (run init_server [(env0, JoinUser ''s2'' bob)])
           ((env0, JoinUser ''s1'' ann) # [(env0, JoinUser ''s1'' ann)]
              @ [(env0, Disconnect ''s1'')]))
       = connectedUsers (run init_server [(env0, JoinUser ''s2'' bob)])"
proof -
  have h1: "\<not> holds_entry ''s1'' (connectedUsers (run init_server [(env0, JoinUser ''s2'' bob)]))"
    by (simp add: holds_entry_def entries_of_def sample_defs)
  have h2: "map_get (Str ''u1'') (connectedUsers (run init_server [(env0, JoinUser ''s2'' bob)]))
              = None"
    by (simp add: sample_defs)
  have h3: "fld ann ''userId'' = Str ''u1''"
    by (simp add: fld_def ann_def)
  have h4: "list_all (join_as ''s1'' (Str ''u1'')) (map snd [(env0, JoinUser ''s1'' ann)])"
    by (simp add: fld_def ann_def)
  from join_then_disconnect_restores [OF h1 h2 h3 h4, where en = env0 and en' = env0] h1 h2 h3 h4
  show ?thesis by blast
qed

text \<open>
  The two conditions are needed. When the user id already has an entry (of connection
  \<open>s1\<close>), the join of \<open>s2\<close> overwrites it and the disconnect of \<open>s2\<close> deletes it: the
  size goes from 1 to 0. When a connection joins under two user ids, its disconnect
  deletes one entry and the other stays: the size goes from 0 to 1.
\<close>

theorem join_disconnect_changes_size:
  "length (connectedUsers (run init_server [(env0, JoinUser ''s1'' ann)])) = 1
   \<and> length (connectedUsers
               (run (run init_server [(env0, JoinUser ''s1'' ann)])
                  [(env0, JoinUser ''s2'' ann), (env0, Disconnect ''s2'')])) = 0
   \<and> length (connectedUsers init_server) = 0
   \<and> length (connectedUsers
               (run init_server
                  [(env0, JoinUser ''s1'' ann), (env0, JoinUser ''s1'' bob),
                   (env0, Disconnect ''s1'')])) = 1"
  by (simp add: sample_defs)

subsection \<open>The offline broadcast\<close>

text \<open>
  Claim C5, as amended. Take a connection that holds no presence entry, in a state
  the server reaches from its start. It joins under user id \<open>u\<close>; then come events
  among which no \<open>join-user\<close> carries \<open>u\<close> and none is from this connection; then
  the connection disconnects. The \<open>user-offline\<close> broadcast of the disconnect is the
  only emission of the handler and carries the \<open>userId\<close>, \<open>name\<close> and \<open>role\<close> of the
  \<open>user-online\<close> broadcast of the join.
\<close>

theorem offline_matches_online:
  assumes "\<not> holds_entry sid (connectedUsers (run init_server evs0))"
    and "list_all (\<lambda>ev. \<not> interferes sid (fld p ''userId'') ev) (map snd evs)"
  shows "emitted (step en (run init_server evs0) (JoinUser sid p))
           = [Emit ToAll ''user-online''
                (Obj [(''userId'', fld p ''userId''), (''role'', fld p ''role''),
                      (''name'', fld p ''name''), (''online'', Bool True)])]
         \<and> emitted (step en' (run init_server (evs0 @ [(en, JoinUser sid p)] @ evs))
                      (Disconnect sid))
           = [Emit ToAll ''user-offline''
                (Obj [(''userId'', fld p ''userId''), (''name'', fld p ''name''),
                      (''role'', fld p ''role''), (''online'', Bool False)])]"
proof -
  let ?st0 = "run init_server evs0"
  let ?st1 = "state_of (step en ?st0 (JoinUser sid p))"
  let ?u = "fld p ''userId''"
  let ?e = "\<lparr>socketId = sid, role = fld p ''role'', name = fld p ''name'', online = True\<rparr>"
  let ?st2 = "run ?st1 evs"
  have d1: "distinct (map fst (connectedUsers ?st1))"
    by (rule distinct_step) (rule distinct_reachable)
  from assms(1) have "entries_of sid (connectedUsers ?st0) = []"
    by (simp add: holds_entry_def)
  then have own1: "entries_of sid (connectedUsers ?st1) = [(?u, ?e)]"
    unfolding registry_after_join by (simp add: entries_of_map_set_own)
  have own2: "entries_of sid (connectedUsers ?st2) = [(?u, ?e)]"
    using d1 own1 assms(2) by (rule own_entry_kept_run)
  have split: "run init_server (evs0 @ [(en, JoinUser sid p)] @ evs) = ?st2"
    by (simp add: run_append del: step.simps)
  have "emitted (step en' ?st2 (Disconnect sid))
          = [Emit ToAll ''user-offline''
                (Obj [(''userId'', ?u), (''name'', fld p ''name''),
                      (''role'', fld p ''role''), (''online'', Bool False)])]"
    unfolding emitted_disconnect
    using disconnect_loop_cases [of sid "connectedUsers ?st2" "connectedUsers ?st2"] own2
    by auto
  then show ?thesis
    unfolding split emitted_join by simp
qed

theorem offline_matches_online_witness:
  "\<not> holds_entry ''s1'' (connectedUsers (run init_server [(env0, JoinUser ''s2'' bob)]))
   \<and> list_all (\<lambda>ev. \<not> interferes ''s1'' (fld ann ''userId'') ev)
        (map snd [(env0, SendMessage ''s1'' hello), (env0, Disconnect ''s2'')])
   \<and> emitted (step env0 (run init_server [(env0, JoinUser ''s2'' bob)]) (JoinUser ''s1'' ann))
       = [Emit ToAll ''user-online''
            (Obj [(''userId'', Str ''u1''), (''role'', Str ''client''),
                  (''name'', Str ''Ann''), (''online'', Bool True)])]
   \<and> emitted (step env0
        (run init_server
           ([(env0, JoinUser ''s2'' bob)] @ [(env0, JoinUser ''s1'' ann)]
              @ [(env0, SendMessage ''s1'' hello), (env0, Disconnect ''s2'')]))
        (Disconnect ''s1''))
       = [Emit ToAll ''user-offline''
            (Obj [(''userId'', Str ''u1''), (''name'', Str ''Ann''),
                  (''role'', Str ''client''), (''online'', Bool False)])]"
proof -
  have h1: "\<not> holds_entry ''s1'' (connectedUsers (run init_server [(env0, JoinUser ''s2'' bob)]))"
    by (simp add: holds_entry_def entries_of_def sample_defs)
  have h2: "list_all (\<lambda>ev. \<not> interferes ''s1'' (fld ann ''userId'') ev)
        (map snd [(env0, SendMessage ''s1'' hello), (env0, Disconnect ''s2'')])"
    by simp
  have f: "fld ann ''userId'' = Str ''u1''" "fld ann ''role'' = Str ''client''"
    "fld ann ''name'' = Str ''Ann''"
    by (simp_all add: fld_def ann_def)
  from offline_matches_online [OF h1 h2, where en = env0 and en' = env0] h1 h2 show ?thesis
    unfolding f by blast
qed

text \<open>
  For a user whose connection has joined under another user id before, the broadcast
  at the disconnect names that other user: \<open>s1\<close> joins as \<open>u1\<close>, then as \<open>u2\<close>, and
  its disconnect announces \<open>u1\<close>.
\<close>

theorem offline_names_other_user:
  "emitted (step env0 (run init_server [(env0, JoinUser ''s1'' ann)]) (JoinUser ''s1'' bob))
     = [Emit ToAll ''user-online''
          (Obj [(''userId'', Str ''u2''), (''role'', Str ''vendor''),
                (''name'', Str ''Bob''), (''online'', Bool True)])]
   \<and> emitted (step env0
        (run init_server [(env0, JoinUser ''s1'' ann), (env0, JoinUser ''s1'' bob)])
        (Disconnect ''s1''))
     = [Emit ToAll ''user-offline''
          (Obj [(''userId'', Str ''u1''), (''name'', Str ''Ann''),
                (''role'', Str ''client''), (''online'', Bool False)])]"
  by (simp add: sample_defs)

subsection \<open>Disconnect\<close>

text \<open>
  The disconnect handler in every state the server reaches: it looks at the
  connection's entries in registry order; when there is none nothing happens, otherwise
  the first of them is deleted and announced.
\<close>

lemma disconnect_first_entry:
  "(case entries_of sid (connectedUsers (run init_server evs)) of
      [] \<Rightarrow>
        connectedUsers (state_of (step en (run init_server evs) (Disconnect sid)))
          = connectedUsers (run init_server evs)
        \<and> emitted (step en (run init_server evs) (Disconnect sid)) = []
    | (u, user) # others \<Rightarrow>
        map_get u (connectedUsers (run init_server evs)) = Some user
        \<and> connectedUsers (state_of (step en (run init_server evs) (Disconnect sid)))
          = map_delete u (connectedUsers (run init_server evs))
        \<and> map_get u (connectedUsers (state_of (step en (run init_server evs) (Disconnect sid))))
          = None
        \<and> Suc (length (connectedUsers
                         (state_of (step en (run init_server evs) (Disconnect sid)))))
          = length (connectedUsers (run init_server evs))
        \<and> entries_of sid
            (connectedUsers (state_of (step en (run init_server evs) (Disconnect sid))))
          = others
        \<and> emitted (step en (run init_server evs) (Disconnect sid))
          = [Emit ToAll ''user-offline''
               (Obj [(''userId'', u), (''name'', name user), (''role'', role user),
                     (''online'', Bool False)])])"
proof -
  let ?R = "connectedUsers (run init_server evs)"
  have d: "distinct (map fst ?R)" by (rule distinct_reachable)
  show ?thesis
  proof (cases "entries_of sid ?R")
    case Nil
    with disconnect_loop_cases [of sid ?R ?R] show ?thesis
      unfolding registry_after_disconnect emitted_disconnect by auto
  next
    case (Cons a others)
    obtain u user where a: "a = (u, user)" by (cases a)
    from Cons a have ent: "entries_of sid ?R = (u, user) # others" by simp
    then have mem: "(u, user) \<in> set ?R" by (simp add: entries_of_in)
    then have key: "u \<in> set (map fst ?R)" by force
    from disconnect_loop_cases [of sid ?R ?R] ent
    have loop: "disconnect_loop sid ?R ?R =
           (map_delete u ?R,
            [Emit ToAll ''user-offline''
               (Obj [(''userId'', u), (''name'', name user), (''role'', role user),
                     (''online'', Bool False)])])"
      by auto
    have "map_get u ?R = Some user"
      using d mem by (rule map_get_distinct)
    moreover have "map_get u (map_delete u ?R) = None"
      using d by (rule map_get_map_delete)
    moreover have "Suc (length (map_delete u ?R)) = length ?R"
      using key by (rule length_map_delete)
    moreover have "entries_of sid (map_delete u ?R) = others"
      using d ent by (rule entries_of_map_delete_first)
    ultimately show ?thesis
      unfolding registry_after_disconnect emitted_disconnect loop ent by simp
  qed
qed

lemma never_joined_no_entry:
  assumes "list_all (\<lambda>ev. \<not> sent_join sid ev) (map snd evs)"
    and "entries_of sid (connectedUsers st) = []"
  shows "entries_of sid (connectedUsers (run st evs)) = []"
  using assms
proof (induction evs arbitrary: st)
  case Nil
  then show ?case by simp
next
  case (Cons a evs)
  obtain en ev where a: "a = (en, ev)" by (cases a)
  let ?R = "connectedUsers st"
  have "entries_of sid (connectedUsers (state_of (step en st ev))) = []"
  proof (cases ev)
    case (JoinUser sid' p)
    with Cons.prems(1) a have ne: "sid' \<noteq> sid" by simp
    have "entries_of sid (map_set (fld p ''userId'')
             \<lparr>socketId = sid', role = fld p ''role'', name = fld p ''name'', online = True\<rparr> ?R)
          = entries_of sid ?R"
    proof (rule entries_of_map_set_other)
      show "socketId \<lparr>socketId = sid', role = fld p ''role'', name = fld p ''name'',
                       online = True\<rparr> \<noteq> sid"
        using ne by simp
    next
      fix e assume "(fld p ''userId'', e) \<in> set ?R"
      with Cons.prems(2) show "socketId e \<noteq> sid"
        by (auto simp: entries_of_def filter_empty_conv)
    qed
    with Cons.prems(2) show ?thesis
      unfolding JoinUser registry_after_join by simp
  next
    case (Disconnect sid')
    have "entries_of sid (map_delete k ?R) = entries_of sid ?R" for k
    proof (rule entries_of_map_delete_other)
      fix e assume "(k, e) \<in> set ?R"
      with Cons.prems(2) show "socketId e \<noteq> sid"
        by (auto simp: entries_of_def filter_empty_conv)
    qed
    with disconnect_loop_cases [of sid' ?R ?R] Cons.prems(2) show ?thesis
      unfolding Disconnect registry_after_disconnect by auto
  qed (simp_all add: registry_unchanged Cons.prems(2) del: step.simps)
  with Cons.IH [of "state_of (step en st ev)"] Cons.prems(1) a show ?case
    by simp
qed

text \<open>
  Claim C7, as amended. In every state the server reaches: when the connection holds
  exactly one presence entry (it joined under one user id \<open>u\<close> and the registry still
  names it for \<open>u\<close>), its disconnect deletes that entry, the registry is one entry
  shorter and has none for \<open>u\<close>, and \<open>user-offline\<close> is emitted once, with the entry's user
  id, name and role; when the connection never sent \<open>join-user\<close>, its disconnect leaves
  the registry as it is and emits nothing.
\<close>

theorem disconnect_removes_own_entry:
  "(entries_of sid (connectedUsers (run init_server evs)) = [(u, user)] \<longrightarrow>
      map_get u (connectedUsers (run init_server evs)) = Some user
      \<and> connectedUsers (state_of (step en (run init_server evs) (Disconnect sid)))
        = map_delete u (connectedUsers (run init_server evs))
      \<and> map_get u (connectedUsers (state_of (step en (run init_server evs) (Disconnect sid))))
        = None
      \<and> Suc (length (connectedUsers
                       (state_of (step en (run init_server evs) (Disconnect sid)))))
        = length (connectedUsers (run init_server evs))
      \<and> emitted (step en (run init_server evs) (Disconnect sid))
        = [Emit ToAll ''user-offline''
             (Obj [(''userId'', u), (''name'', name user), (''role'', role user),
                   (''online'', Bool False)])])
   \<and> (list_all (\<lambda>ev. \<not> sent_join sid ev) (map snd evs) \<longrightarrow>
      connectedUsers (state_of (step en (run init_server evs) (Disconnect sid)))
        = connectedUsers (run init_server evs)
      \<and> emitted (step en (run init_server evs) (Disconnect sid)) = [])"
proof (intro conjI impI)
  assume one: "entries_of sid (connectedUsers (run init_server evs)) = [(u, user)]"
  note first = disconnect_first_entry
    [where sid = sid and evs = evs and en = en, unfolded one list.case prod.case]
  from first show "map_get u (connectedUsers (run init_server evs)) = Some user"
    by blast
  from first
  show "connectedUsers (state_of (step en (run init_server evs) (Disconnect sid)))
          = map_delete u (connectedUsers (run init_server evs))"
    by blast
  from first
  show "map_get u (connectedUsers (state_of (step en (run init_server evs) (Disconnect sid))))
          = None"
    by blast
  from first
  show "Suc (length (connectedUsers
                       (state_of (step en (run init_server evs) (Disconnect sid)))))
          = length (connectedUsers (run init_server evs))"
    by blast
  from first
  show "emitted (step en (run init_server evs) (Disconnect sid))
          = [Emit ToAll ''user-offline''
               (Obj [(''userId'', u), (''name'', name user), (''role'', role user),
                     (''online'', Bool False)])]"
    by blast
next
  assume "list_all (\<lambda>ev. \<not> sent_join sid ev) (map snd evs)"
  then have none: "entries_of sid (connectedUsers (run init_server evs)) = []"
    by (rule never_joined_no_entry) (simp add: init_server_def entries_of_def)
  note idle = disconnect_first_entry
    [where sid = sid and evs = evs and en = en, unfolded none list.case]
  from idle
  show "connectedUsers (state_of (step en (run init_server evs) (Disconnect sid)))
          = connectedUsers (run init_server evs)"
    by blast
  from idle show "emitted (step en (run init_server evs) (Disconnect sid)) = []"
    by blast
qed

theorem disconnect_removes_own_entry_witness:
  "entries_of ''s1''
     (connectedUsers (run init_server [(env0, JoinUser ''s1'' ann), (env0, JoinUser ''s2'' bob)]))
     = [(Str ''u1'', \<lparr>socketId = ''s1'', role = Str ''client'', name = Str ''Ann'',
                       online = True\<rparr>)]
   \<and> list_all (\<lambda>ev. \<not> sent_join ''s3'' ev)
        (map snd [(env0, JoinUser ''s1'' ann), (env0, JoinUser ''s2'' bob)])
   \<and> map_get (Str ''u1'')
        (connectedUsers
           (state_of (step env0
              (run init_server [(env0, JoinUser ''s1'' ann), (env0, JoinUser ''s2'' bob)])
              (Disconnect ''s1'')))) = None
   \<and> emitted (step env0
        (run init_server [(env0, JoinUser ''s1'' ann), (env0, JoinUser ''s2'' bob)])
        (Disconnect ''s1''))
     = [Emit ToAll ''user-offline''
          (Obj [(''userId'', Str ''u1''), (''name'', Str ''Ann''),
                (''role'', Str ''client''), (''online'', Bool False)])]
   \<and> emitted (step env0
        (run init_server [(env0, JoinUser ''s1'' ann), (env0, JoinUser ''s2'' bob)])
        (Disconnect ''s3'')) = []"
proof -
  let ?evs = "[(env0, JoinUser ''s1'' ann), (env0, JoinUser ''s2'' bob)]"
  let ?ann = "\<lparr>socketId = ''s1'', role = Str ''client'', name = Str ''Ann'', online = True\<rparr>"
  have e1: "entries_of ''s1'' (connectedUsers (run init_server ?evs)) = [(Str ''u1'', ?ann)]"
    by (simp add: entries_of_def sample_defs)
  have e3: "list_all (\<lambda>ev. \<not> sent_join ''s3'' ev) (map snd ?evs)"
    by simp
  from disconnect_removes_own_entry
         [where sid = "''s1''" and evs = ?evs and en = env0 and u = "Str ''u1''" and user = ?ann]
       e1
  have a: "map_get (Str ''u1'')
        (connectedUsers (state_of (step env0 (run init_server ?evs) (Disconnect ''s1'')))) = None
      \<and> emitted (step env0 (run init_server ?evs) (Disconnect ''s1''))
        = [Emit ToAll ''user-offline''
             (Obj [(''userId'', Str ''u1''), (''name'', name ?ann), (''role'', role ?ann),
                   (''online'', Bool False)])]"
    by blast
  from disconnect_removes_own_entry
         [where sid = "''s3''" and evs = ?evs and en = env0 and u = "Str ''u1''" and user = ?ann]
       e3
  have b: "emitted (step env0 (run init_server ?evs) (Disconnect ''s3'')) = []"
    by blast
  from a b e1 e3 show ?thesis
    by (auto simp del: step.simps run.simps)
qed

text \<open>
  The entry of the user id a connection joined under last is not always the one
  deleted: \<open>s1\<close> joins as \<open>u1\<close>, then as \<open>u2\<close> (its \<open>socket.userId\<close>, and the
  registry names \<open>s1\<close> for \<open>u2\<close>); its disconnect deletes and announces \<open>u1\<close>, and the
  entry of \<open>u2\<close> stays.
\<close>

theorem later_entry_survives_disconnect:
  "userId (sockets (run init_server [(env0, JoinUser ''s1'' ann), (env0, JoinUser ''s1'' bob)])
             ''s1'') = Str ''u2''
   \<and> map_get (Str ''u2'')
       (connectedUsers
          (run init_server [(env0, JoinUser ''s1'' ann), (env0, JoinUser ''s1'' bob)]))
     = Some \<lparr>socketId = ''s1'', role = Str ''vendor'', name = Str ''Bob'', online = True\<rparr>
   \<and> map_get (Str ''u2'')
       (connectedUsers
          (state_of (step env0
             (run init_server [(env0, JoinUser ''s1'' ann), (env0, JoinUser ''s1'' bob)])
             (Disconnect ''s1''))))
     = Some \<lparr>socketId = ''s1'', role = Str ''vendor'', name = Str ''Bob'', online = True\<rparr>
   \<and> emitted (step env0
        (run init_server [(env0, JoinUser ''s1'' ann), (env0, JoinUser ''s1'' bob)])
        (Disconnect ''s1''))
     = [Emit ToAll ''user-offline''
          (Obj [(''userId'', Str ''u1''), (''name'', Str ''Ann''),
                (''role'', Str ''client''), (''online'', Bool False)])]"
  by (simp add: sample_defs)

subsection \<open>The order emitters\<close>

text \<open>
  Claim C8, as amended. With the handle absent both emitters return at once
  (\<open>if (!io) return\<close>): they emit nothing and write nothing to the console, for every
  argument, also one whose properties cannot be read. Nothing is thrown: the whole body
  is inside \<open>try\<close>, and the model's functions return a value for every argument.
\<close>

theorem absent_handle_is_silent:
  "emitOrderCreated False order = ([], []) \<and> emitOrderUpdated False en order = ([], [])"
  by (simp add: emitOrderCreated_def emitOrderUpdated_def)

text \<open>The condition is not logged: the console stays empty.\<close>

theorem absent_handle_logs_nothing:
  "snd (emitOrderCreated False order1) = [] \<and> snd (emitOrderUpdated False env0 order1) = []"
  by (simp add: emitOrderCreated_def emitOrderUpdated_def)

lemma truthy_status_not_nullish: "truthy (get_prop order k) \<Longrightarrow> \<not> nullish order"
  by (cases order rule: nullish.cases) simp_all

lemma user_room_not_vendor: "user_room u \<noteq> vendor_room"
  by (simp add: user_room_def vendor_room_def)

text \<open>
  Claim C9, as amended. With the handle present and an order whose status is set,
  \<open>emitOrderUpdated\<close> emits the derived \<open>order-status-changed\<close> once, to the personal
  channel of the order's client (\<open>user-<order.userId>\<close>), carrying \<open>orderId\<close> (the order's
  \<open>id\<close>, or its \<open>_id\<close>), \<open>status\<close> and \<open>timestamp\<close>. The vendor room gets exactly one
  emission, the \<open>order-updated\<close> with the order, and nothing is written to the console.
\<close>

theorem status_change_to_client_only:
  assumes "truthy (get_prop order ''status'')"
  shows "[e \<leftarrow> fst (emitOrderUpdated True en order). ev_name e = ''order-status-changed'']
           = [Emit (ToRoom (user_room (get_prop order ''userId''))) ''order-status-changed''
                (Obj [(''orderId'', js_or (get_prop order ''id'') (get_prop order ''_id'')),
                      (''status'', get_prop order ''status''),
                      (''timestamp'', Str (iso1 en))])]
         \<and> [e \<leftarrow> fst (emitOrderUpdated True en order). tgt e = ToRoom vendor_room]
           = [Emit (ToRoom vendor_room) ''order-updated'' order]
         \<and> snd (emitOrderUpdated True en order) = []"
proof -
  from assms have obj: "\<not> nullish order"
    by (rule truthy_status_not_nullish)
  have away: "ToRoom (user_room (get_prop order ''userId'')) \<noteq> ToRoom vendor_room"
    by (simp add: user_room_not_vendor)
  from assms obj away show ?thesis
    by (simp add: emitOrderUpdated_def)
qed

theorem status_change_to_client_only_witness:
  "truthy (get_prop order1 ''status'')
   \<and> [e \<leftarrow> fst (emitOrderUpdated True env0 order1). ev_name e = ''order-status-changed'']
       = [Emit (ToRoom (Str ''user-u1'')) ''order-status-changed''
            (Obj [(''orderId'', Str ''o1''), (''status'', Str ''shipped''),
                  (''timestamp'', Str ''2024-05-01T10:00:00.000Z'')])]
   \<and> [e \<leftarrow> fst (emitOrderUpdated True env0 order1). tgt e = ToRoom vendor_room]
       = [Emit (ToRoom vendor_room) ''order-updated'' order1]"
proof -
  have h: "truthy (get_prop order1 ''status'')"
    by (simp add: order1_def fld_def)
  have v: "user_room (get_prop order1 ''userId'') = Str ''user-u1''"
    "js_or (get_prop order1 ''id'') (get_prop order1 ''_id'') = Str ''o1''"
    "get_prop order1 ''status'' = Str ''shipped''"
    "iso1 env0 = ''2024-05-01T10:00:00.000Z''"
    by (simp_all add: order1_def fld_def user_room_def js_or_def env0_def)
  from status_change_to_client_only [OF h, where en = env0] h show ?thesis
    unfolding v by blast
qed

text \<open>
  No \<open>order-status-changed\<close> goes to the vendor room: for the order \<open>o1\<close> of user \<open>u1\<close>
  with status \<open>shipped\<close> the three emissions are \<open>order-updated\<close> to the vendor room and
  to \<open>user-u1\<close>, and \<open>order-status-changed\<close> to \<open>user-u1\<close>.
\<close>

theorem status_change_skips_vendor_room:
  "fst (emitOrderUpdated True env0 order1)
     = [Emit (ToRoom (Str ''vendor'')) ''order-updated'' order1,
        Emit (ToRoom (Str ''user-u1'')) ''order-updated'' order1,
        Emit (ToRoom (Str ''user-u1'')) ''order-status-changed''
          (Obj [(''orderId'', Str ''o1''), (''status'', Str ''shipped''),
                (''timestamp'', Str ''2024-05-01T10:00:00.000Z'')])]
   \<and> [e \<leftarrow> fst (emitOrderUpdated True env0 order1).
        ev_name e = ''order-status-changed'' \<and> tgt e = ToRoom vendor_room] = []"
  by (simp add: emitOrderUpdated_def order1_def env0_def vendor_room_def user_room_def
        fld_def js_or_def)

end
